theory Spec2Isabelle
  imports Complex_Main
begin

section \<open>Data model of \<open>src/src/main.ts\<close>\<close>

text \<open>
  A JavaScript \<open>number\<close> is modelled as a \<^typ>\<open>real\<close>: \<open>NaN\<close> and the infinities of
  IEEE doubles are outside the model, and so is rounding, except for the mass and the
  velocity of a merged planet, whose rounding has a section of its own. Objects have identity: a \<open>Planet\<close>
  lives in a heap (a list of objects; a reference is an index, \<open>new Planet\<close> appends) and
  the global array \<open>planets\<close> holds references. The \<open>velocity\<close> object and the trail points
  of a planet are never shared between planets (every constructor call in the source
  passes a fresh object literal), so they are stored inline. The record fields \<open>x\<close>,
  \<open>y\<close> of the source appear as \<open>pos_x\<close>, \<open>pos_y\<close> (Planet), \<open>vel_x\<close>, \<open>vel_y\<close>
  (Velocity) and \<open>tp_x\<close>, \<open>tp_y\<close> (TrailPoint).

  The DOM elements the program looks up (canvas, log, inputs) are taken to exist.
  \<open>src/vite.config.js\<close> carries an older copy of the same program: its
  \<open>applyGravity\<close>, \<open>checkCollision\<close> and \<open>update\<close> are the same, its \<open>animate\<close>
  uses \<open>planets.forEach\<close>. The model follows \<open>src/src/main.ts\<close>.
\<close>

record Velocity =
  vel_x :: real
  vel_y :: real

record TrailPoint =
  tp_x :: real
  tp_y :: real
  life :: real

record Planet =
  pos_x :: real
  pos_y :: real
  radius :: real
  color :: string
  mass :: real
  velocity :: Velocity
  name :: string
  trail :: "TrailPoint list"
  fadeSpeed :: real

text \<open>
  The globals of the program. \<open>visits\<close> is not a variable of the source: it records, in
  order, every pair \<open>(this, other)\<close> for which the loop of \<open>Planet.update\<close> passes the
  test \<open>other !== this\<close> and so calls \<open>applyGravity\<close> and \<open>checkCollision\<close>. Nothing
  reads it. Canvas drawing and the DOM log are not modelled.
\<close>

record world =
  heap :: "Planet list"
  planets :: "nat list"
  dt :: real
  isPaused :: bool
  visits :: "(nat \<times> nat) list"

datatype error = TypeError

definition G :: real where
  "G = 667430 / 10 ^ 16"

definition distanceScale :: real where
  "distanceScale = 10 ^ 9"

text \<open>The constructor: an empty trail and \<open>fadeSpeed = 0.005\<close>.\<close>

definition new_Planet ::
  "real \<Rightarrow> real \<Rightarrow> real \<Rightarrow> string \<Rightarrow> real \<Rightarrow> Velocity \<Rightarrow> string \<Rightarrow> Planet" where
  "new_Planet px py r c m v n =
     \<lparr>pos_x = px, pos_y = py, radius = r, color = c, mass = m, velocity = v,
      name = n, trail = [], fadeSpeed = 5 / 1000\<rparr>"

section \<open>Array operations\<close>

text \<open>\<open>Array.prototype.indexOf\<close> on references; \<open>None\<close> is the source's \<open>-1\<close>.\<close>

fun indexOf :: "nat list \<Rightarrow> nat \<Rightarrow> nat option" where
  "indexOf [] r = None"
| "indexOf (p # ps) r = (if p = r then Some 0 else map_option Suc (indexOf ps r))"

text \<open>\<open>xs.splice(i, 1)\<close> and \<open>xs.splice(i, 1, v)\<close> for \<open>i \<ge> 0\<close>: the start is clamped to
  the length, so with \<open>i = length xs\<close> the second form deletes nothing and appends.\<close>

definition splice_remove :: "nat list \<Rightarrow> nat \<Rightarrow> nat list" where
  "splice_remove xs i = take i xs @ drop (Suc i) xs"

definition splice_replace :: "nat list \<Rightarrow> nat \<Rightarrow> nat \<Rightarrow> nat list" where
  "splice_replace xs i v = take i xs @ v # drop (Suc i) xs"

section \<open>Gravity\<close>

text \<open>\<open>Math.atan2(y, x)\<close> on reals (no signed zero).\<close>

definition atan2 :: "real \<Rightarrow> real \<Rightarrow> real" where
  "atan2 y x =
     (if 0 < x then arctan (y / x)
      else if x < 0 then (if 0 \<le> y then arctan (y / x) + pi else arctan (y / x) - pi)
      else if 0 < y then pi / 2
      else if y < 0 then - (pi / 2)
      else 0)"

definition applyGravity :: "world \<Rightarrow> nat \<Rightarrow> nat \<Rightarrow> world" where
  "applyGravity s this other =
     (let a = heap s ! this;
          b = heap s ! other;
          dx = pos_x b - pos_x a;
          dy = pos_y b - pos_y a;
          distance = max (sqrt (dx * dx + dy * dy)) (10 ^ 7);
          force = (G * mass a * mass b) / (distance * distance);
          angle = atan2 dy dx;
          forceX = cos angle * force;
          forceY = sin angle * force;
          v = velocity a;
          v1 = v\<lparr>vel_x := vel_x v + (forceX / mass a) * dt s\<rparr>;
          v2 = v1\<lparr>vel_y := vel_y v1 + (forceY / mass a) * dt s\<rparr>
      in s\<lparr>heap := (heap s)[this := a\<lparr>velocity := v2\<rparr>]\<rparr>)"

section \<open>Collision and merge\<close>

text \<open>
  The planet built in the collision branch of \<open>checkCollision\<close>, in exact arithmetic.
  How the doubles of the source round \<open>newMass\<close> and \<open>newVelocity\<close> is modelled further
  down (\<open>newMass_double\<close>, \<open>newVelocity_double\<close>).
\<close>

definition fusedPlanet :: "Planet \<Rightarrow> Planet \<Rightarrow> Planet" where
  "fusedPlanet a b =
     (let newMass = mass a + mass b;
          newRadius = sqrt (radius a * radius a + radius b * radius b);
          newVelocity =
            \<lparr>vel_x = (vel_x (velocity a) * mass a + vel_x (velocity b) * mass b) / newMass,
             vel_y = (vel_y (velocity a) * mass a + vel_y (velocity b) * mass b) / newMass\<rparr>;
          newX = (pos_x a * mass a + pos_x b * mass b) / newMass;
          newY = (pos_y a * mass a + pos_y b * mass b) / newMass
      in new_Planet newX newY newRadius (color a) newMass newVelocity
           (name a @ ''+'' @ name b))"

definition collides :: "Planet \<Rightarrow> Planet \<Rightarrow> bool" where
  "collides a b =
     (let dx = pos_x b - pos_x a;
          dy = pos_y b - pos_y a;
          distance = sqrt (dx * dx + dy * dy)
      in distance \<le> (radius a + radius b) * distanceScale)"

text \<open>
  Both indices are read before the first splice; the second splice uses \<open>indexThis\<close>
  as it was read.
\<close>

definition checkCollision :: "world \<Rightarrow> nat \<Rightarrow> nat \<Rightarrow> world" where
  "checkCollision s this other =
     (let a = heap s ! this;
          b = heap s ! other
      in if collides a b then
           (let fused = length (heap s);
                indexThis = indexOf (planets s) this;
                indexOther = indexOf (planets s) other;
                ps1 = (case indexOther of None \<Rightarrow> planets s
                       | Some j \<Rightarrow> splice_remove (planets s) j);
                ps2 = (case indexThis of None \<Rightarrow> ps1
                       | Some i \<Rightarrow> splice_replace ps1 i fused)
            in s\<lparr>heap := heap s @ [fusedPlanet a b], planets := ps2\<rparr>)
         else s)"

lemma indexOf_less: "indexOf ps r = Some i \<Longrightarrow> i < length ps"
  by (induction ps arbitrary: i) (auto split: if_splits)

lemma length_splice_remove: "j < length ps \<Longrightarrow> length (splice_remove ps j) = length ps - 1"
  by (simp add: splice_remove_def)

lemma length_splice_replace:
  "length (splice_replace ps i v) = (if i < length ps then length ps else Suc (length ps))"
  by (auto simp: splice_replace_def)

lemma length_planets_checkCollision:
  "length (planets (checkCollision s this other)) \<le> length (planets s)"
proof (cases "collides (heap s ! this) (heap s ! other)")
  case False
  then show ?thesis by (simp add: checkCollision_def)
next
  case True
  show ?thesis
  proof (cases "indexOf (planets s) other")
    case None
    then show ?thesis
      using True
      by (auto simp: checkCollision_def Let_def length_splice_replace
          split: option.splits dest: indexOf_less)
  next
    case (Some j)
    then have j: "j < length (planets s)" by (rule indexOf_less)
    show ?thesis
      using True Some j
      by (auto simp: checkCollision_def Let_def length_splice_replace length_splice_remove
          split: option.splits)
  qed
qed

lemma planets_applyGravity: "planets (applyGravity s this other) = planets s"
  by (simp add: applyGravity_def Let_def)

section \<open>One step of a planet\<close>

text \<open>
  \<open>for (let other of planets)\<close>: the array iterator holds an index and reads the live
  array and its current length at every step, so a splice made by the body shifts what
  the following steps see.
\<close>

function update_loop :: "world \<Rightarrow> nat \<Rightarrow> nat \<Rightarrow> world" where
  "update_loop s this k =
     (if k < length (planets s) then
        (if planets s ! k \<noteq> this then
           update_loop
             (checkCollision
                (applyGravity (s\<lparr>visits := visits s @ [(this, planets s ! k)]\<rparr>)
                   this (planets s ! k))
                this (planets s ! k))
             this (Suc k)
         else update_loop s this (Suc k))
      else s)"
  by pat_completeness auto

termination
proof (relation "measure (\<lambda>(s, this, k). length (planets s) - k)")
  show "wf (measure (\<lambda>(s, this, k). length (planets s) - k))" by simp
next
  fix s :: world and this k
  assume k: "k < length (planets s)" and "planets s ! k \<noteq> this"
  let ?s' = "checkCollision
                (applyGravity (s\<lparr>visits := visits s @ [(this, planets s ! k)]\<rparr>)
                   this (planets s ! k))
                this (planets s ! k)"
  have "length (planets ?s') \<le> length (planets s)"
    using length_planets_checkCollision
      [of "applyGravity (s\<lparr>visits := visits s @ [(this, planets s ! k)]\<rparr>) this (planets s ! k)"
          this "planets s ! k"]
    by (simp add: planets_applyGravity)
  with k show "((?s', this, Suc k), (s, this, k))
      \<in> measure (\<lambda>(s, this, k). length (planets s) - k)"
    by simp
next
  fix s :: world and this k
  assume "k < length (planets s)"
  then show "((s, this, Suc k), (s, this, k))
      \<in> measure (\<lambda>(s, this, k). length (planets s) - k)"
    by simp
qed

declare update_loop.simps [simp del]

text \<open>The \<open>while\<close> loop that shifts stale points off the front of the trail.\<close>

fun evict :: "TrailPoint list \<Rightarrow> TrailPoint list" where
  "evict [] = []"
| "evict (t # ts) = (if life t \<le> 0 then evict ts else t # ts)"

definition update :: "world \<Rightarrow> nat \<Rightarrow> world" where
  "update s this =
     (let s1 = update_loop s this 0;
          p = heap s1 ! this;
          p1 = p\<lparr>pos_x := pos_x p + vel_x (velocity p) * dt s1\<rparr>;
          p2 = p1\<lparr>pos_y := pos_y p1 + vel_y (velocity p1) * dt s1\<rparr>;
          p3 = p2\<lparr>trail := trail p2 @ [\<lparr>tp_x = pos_x p2, tp_y = pos_y p2, life = 1\<rparr>]\<rparr>;
          p4 = p3\<lparr>trail := map (\<lambda>t. t\<lparr>life := life t - fadeSpeed p3\<rparr>) (trail p3)\<rparr>;
          p5 = p4\<lparr>trail := evict (trail p4)\<rparr>
      in s1\<lparr>heap := (heap s1)[this := p5]\<rparr>)"

lemma planets_update_loop_length:
  "length (planets (update_loop s this k)) \<le> length (planets s)"
proof (induction s this k rule: update_loop.induct)
  case (1 s this k)
  show ?case
  proof (cases "k < length (planets s)")
    case False
    then show ?thesis by (subst update_loop.simps) simp
  next
    case k: True
    show ?thesis
    proof (cases "planets s ! k = this")
      case True
      then show ?thesis
        using k "1.IH"(2) by (subst update_loop.simps) simp
    next
      case False
      let ?s' = "checkCollision
                (applyGravity (s\<lparr>visits := visits s @ [(this, planets s ! k)]\<rparr>)
                   this (planets s ! k))
                this (planets s ! k)"
      have "length (planets ?s') \<le> length (planets s)"
        using length_planets_checkCollision
          [of "applyGravity (s\<lparr>visits := visits s @ [(this, planets s ! k)]\<rparr>) this (planets s ! k)"
              this "planets s ! k"]
        by (simp add: planets_applyGravity)
      moreover have "length (planets (update_loop ?s' this (Suc k))) \<le> length (planets ?s')"
        using k False by (rule "1.IH"(1))
      ultimately show ?thesis
        using k False by (subst update_loop.simps) simp
    qed
  qed
qed

lemma planets_update: "planets (update s this) = planets (update_loop s this 0)"
  by (simp add: update_def Let_def)

section \<open>One tick\<close>

text \<open>
  The loop of \<open>animate\<close>. \<open>planets[i].update()\<close> may shrink the array; the following
  \<open>planets[i].draw()\<close> reads the array again, and on \<open>undefined\<close> the call throws a
  \<open>TypeError\<close>, which leaves \<open>animate\<close> before it schedules the next frame. \<open>draw\<close>
  itself only paints. The error carries the globals as they stand at the throw.
\<close>

function animate_loop :: "world \<Rightarrow> nat \<Rightarrow> (error \<times> world) + world" where
  "animate_loop s i =
     (if i < length (planets s) then
        (if i < length (planets (update s (planets s ! i)))
         then animate_loop (update s (planets s ! i)) (Suc i)
         else Inl (TypeError, update s (planets s ! i)))
      else Inr s)"
  by pat_completeness auto

termination
proof (relation "measure (\<lambda>(s, i). length (planets s) - i)")
  show "wf (measure (\<lambda>(s, i). length (planets s) - i))" by simp
next
  fix s :: world and i
  assume "i < length (planets s)" and "i < length (planets (update s (planets s ! i)))"
  moreover have "length (planets (update s (planets s ! i))) \<le> length (planets s)"
    by (simp add: planets_update planets_update_loop_length)
  ultimately show "((update s (planets s ! i), Suc i), (s, i))
      \<in> measure (\<lambda>(s, i). length (planets s) - i)"
    by simp
qed

declare animate_loop.simps [simp del]

definition animate :: "world \<Rightarrow> (error \<times> world) + world" where
  "animate s = (if \<not> isPaused s then animate_loop s 0 else Inr s)"

section \<open>Spawning\<close>

text \<open>
  \<open>planets.reduce((max, p) => (p.mass > max.mass ? p : max), planets[0])\<close>: on the empty
  array the initial value \<open>planets[0]\<close> is \<open>undefined\<close> and \<open>reduce\<close> returns it;
  \<open>None\<close> is that \<open>undefined\<close>.
\<close>

definition getMostMassivePlanet :: "world \<Rightarrow> nat option" where
  "getMostMassivePlanet s =
     (case planets s of
        [] \<Rightarrow> None
      | p0 # _ \<Rightarrow>
          Some (fold (\<lambda>p max. if mass (heap s ! max) < mass (heap s ! p) then p else max)
                  (planets s) p0))"

text \<open>
  The click handler of the spawn button. The five \<open>parseFloat\<close> results are options
  (\<open>None\<close> is \<open>NaN\<close>); the canvas size and the random colour are parameters.
\<close>

definition spawnPlanet ::
  "real \<Rightarrow> real \<Rightarrow> string \<Rightarrow> real option \<Rightarrow> real option \<Rightarrow> real option \<Rightarrow> real option
     \<Rightarrow> real option \<Rightarrow> string \<Rightarrow> world \<Rightarrow> world" where
  "spawnPlanet canvas_width canvas_height col mass_in radius_in velocityX velocityY distancePx nm s =
     (case (mass_in, radius_in, velocityX, velocityY, distancePx) of
        (Some m, Some r, Some vx, Some vy, Some d) \<Rightarrow>
          (let centerPlanet = getMostMassivePlanet s;
               distanceFromCenter = d * distanceScale;
               posX = (case centerPlanet of
                         Some c \<Rightarrow> pos_x (heap s ! c) + distanceFromCenter
                       | None \<Rightarrow> canvas_width / 2 + distanceFromCenter);
               posY = (case centerPlanet of
                         Some c \<Rightarrow> pos_y (heap s ! c)
                       | None \<Rightarrow> canvas_height / 2)
           in s\<lparr>heap := heap s @ [new_Planet posX posY r col m \<lparr>vel_x = vx, vel_y = vy\<rparr> nm],
                planets := planets s @ [length (heap s)]\<rparr>)
      | _ \<Rightarrow> s)"

text \<open>The state the globals are left in, whether the tick completed or threw.\<close>

fun world_of :: "(error \<times> world) + world \<Rightarrow> world" where
  "world_of (Inl (e, s)) = s"
| "world_of (Inr s) = s"

text \<open>A sequence of calls \<open>r.update()\<close> on the objects \<open>rs\<close>, in order.\<close>

fun updates :: "world \<Rightarrow> nat list \<Rightarrow> world" where
  "updates s [] = s"
| "updates s (r # rs) = updates (update s r) rs"

text \<open>Every ordered pair of different entries, in the order a tick without merges visits them.\<close>

definition all_pairs :: "nat list \<Rightarrow> nat list \<Rightarrow> (nat \<times> nat) list" where
  "all_pairs qs ps = concat (map (\<lambda>a. map (Pair a) (filter (\<lambda>p. p \<noteq> a) ps)) qs)"

section \<open>The trail invariant\<close>

text \<open>
  What every trail satisfies from the constructor on: \<open>fadeSpeed\<close> is \<open>0.005\<close>, the
  lives grow from front to back in steps of at least \<open>0.005\<close>, and every life lies in
  \<open>(0, 0.995]\<close>.
\<close>

definition trail_ok :: "Planet \<Rightarrow> bool" where
  "trail_ok p \<longleftrightarrow>
     fadeSpeed p = 1 / 200 \<and>
     sorted_wrt (\<lambda>t u. life t + 1 / 200 \<le> life u) (trail p) \<and>
     (\<forall>t \<in> set (trail p). 0 < life t \<and> life t \<le> 199 / 200)"

definition trails_ok :: "world \<Rightarrow> bool" where
  "trails_ok s \<longleftrightarrow> (\<forall>p \<in> set (heap s). trail_ok p)"

section \<open>Double arithmetic for the merged mass and velocity\<close>










section \<open>Example worlds\<close>

text \<open>Two bodies on the x axis whose distance is exactly \<open>(1 + 1) * distanceScale\<close>.\<close>

definition boundary_world :: world where
  "boundary_world =
     \<lparr>heap = [new_Planet 0 0 1 ''red'' 2 \<lparr>vel_x = 3, vel_y = 1\<rparr> ''A'',
              new_Planet (2 * 10 ^ 9) 0 1 ''blue'' 4 \<lparr>vel_x = - 3, vel_y = 5\<rparr> ''B''],
      planets = [0, 1], dt = 86400, isPaused = False, visits = []\<rparr>"

text \<open>Two resting bodies on the x axis, \<open>3 * 10^9\<close> m apart: no collision.\<close>

definition far_world :: world where
  "far_world =
     \<lparr>heap = [new_Planet 0 0 1 ''red'' 2 \<lparr>vel_x = 0, vel_y = 0\<rparr> ''A'',
              new_Planet (3 * 10 ^ 9) 0 1 ''blue'' 4 \<lparr>vel_x = 0, vel_y = 0\<rparr> ''B''],
      planets = [0, 1], dt = 86400, isPaused = False, visits = []\<rparr>"

text \<open>One body alone.\<close>

definition lone_world :: world where
  "lone_world =
     \<lparr>heap = [new_Planet 0 0 1 ''red'' 2 \<lparr>vel_x = 1, vel_y = 0\<rparr> ''A''],
      planets = [0], dt = 86400, isPaused = False, visits = []\<rparr>"

text \<open>\<open>A\<close> and \<open>B\<close> at the same point, \<open>C\<close> far away from both.\<close>

definition merge3 :: world where
  "merge3 =
     \<lparr>heap = [new_Planet 0 0 3 ''red'' 1 \<lparr>vel_x = 0, vel_y = 0\<rparr> ''A'',
              new_Planet 0 0 4 ''blue'' 2 \<lparr>vel_x = 0, vel_y = 0\<rparr> ''B'',
              new_Planet (10 ^ 12) 0 1 ''green'' 4 \<lparr>vel_x = 0, vel_y = 0\<rparr> ''C''],
      planets = [0, 1, 2], dt = 86400, isPaused = False, visits = []\<rparr>"



text \<open>
  The array \<open>[B, A, C]\<close>: \<open>A\<close> (reference 0) and \<open>B\<close> (reference 1) at distance exactly
  \<open>(1 + 1) * distanceScale\<close>, with \<open>B\<close> standing before \<open>A\<close>, and \<open>C\<close> far away.
\<close>

definition reversed_world :: world where
  "reversed_world =
     \<lparr>heap = [new_Planet 0 0 1 ''red'' 2 \<lparr>vel_x = 0, vel_y = 0\<rparr> ''A'',
              new_Planet (2 * 10 ^ 9) 0 1 ''blue'' 4 \<lparr>vel_x = 0, vel_y = 0\<rparr> ''B'',
              new_Planet (10 ^ 12) 0 1 ''green'' 8 \<lparr>vel_x = 0, vel_y = 0\<rparr> ''C''],
      planets = [1, 0, 2], dt = 86400, isPaused = False, visits = []\<rparr>"

text \<open>The program's initial state: no planets.\<close>

definition empty_world :: world where
  "empty_world = \<lparr>heap = [], planets = [], dt = 86400, isPaused = False, visits = []\<rparr>"

text \<open>Four resting bodies at the same point: every pair collides.\<close>

definition coincident4 :: world where
  "coincident4 =
     \<lparr>heap = [new_Planet 0 0 1 ''red'' 1 \<lparr>vel_x = 0, vel_y = 0\<rparr> ''A'',
              new_Planet 0 0 1 ''blue'' 2 \<lparr>vel_x = 0, vel_y = 0\<rparr> ''B'',
              new_Planet 0 0 1 ''green'' 4 \<lparr>vel_x = 0, vel_y = 0\<rparr> ''C'',
              new_Planet 0 0 1 ''grey'' 8 \<lparr>vel_x = 0, vel_y = 0\<rparr> ''D''],
      planets = [0, 1, 2, 3], dt = 86400, isPaused = False, visits = []\<rparr>"

section \<open>Facts about the array operations\<close>

lemma set_splice_remove: "set (splice_remove ps j) \<subseteq> set ps"
  unfolding splice_remove_def
  using set_take_subset [of j ps] set_drop_subset [of "Suc j" ps] by auto

lemma set_splice_replace: "set (splice_replace ps i v) \<subseteq> insert v (set ps)"
  unfolding splice_replace_def
  using set_take_subset [of i ps] set_drop_subset [of "Suc i" ps] by auto

lemma indexOf_nth: "indexOf ps r = Some i \<Longrightarrow> ps ! i = r"
  by (induction ps arbitrary: i) (auto split: if_splits)

lemma indexOf_None_iff: "indexOf ps r = None \<longleftrightarrow> r \<notin> set ps"
  by (induction ps) auto

lemma set_splice_remove_distinct:
  assumes "distinct ps" and "j < length ps"
  shows "set (splice_remove ps j) = set ps - {ps ! j}"
proof -
  have ps: "ps = take j ps @ ps ! j # drop (Suc j) ps"
    using assms(2) by (rule id_take_nth_drop)
  then have "distinct (take j ps @ ps ! j # drop (Suc j) ps)"
    using assms(1) by simp
  then have "ps ! j \<notin> set (take j ps) \<and> ps ! j \<notin> set (drop (Suc j) ps)"
    by simp
  moreover have "set ps = set (take j ps @ ps ! j # drop (Suc j) ps)"
    using ps by simp
  then have "set ps = set (take j ps) \<union> {ps ! j} \<union> set (drop (Suc j) ps)"
    by simp
  ultimately show ?thesis
    by (auto simp: splice_remove_def)
qed

lemma splice_replace_mem: "v \<in> set (splice_replace ps i v)"
  by (simp add: splice_replace_def)

lemma splice_in_place:
  assumes "i < j" and "j < length ps"
  shows "splice_replace (splice_remove ps j) i v = splice_remove (ps[i := v]) j"
proof -
  obtain n where n: "j = Suc (i + n)"
    using assms(1) less_imp_Suc_add by blast
  have il: "i < length ps" using assms by simp
  have "take i (take j ps @ drop (Suc j) ps) = take i ps"
    using assms by (simp add: min_def)
  moreover have "drop (Suc i) (take j ps @ drop (Suc j) ps) = take n (drop (Suc i) ps) @ drop (Suc j) ps"
    using assms n by (simp add: drop_take)
  moreover have "take j (ps[i := v]) = take i ps @ v # take n (drop (Suc i) ps)"
    using il n by (simp add: upd_conv_take_nth_drop take_Suc_Cons take_add min_def)
  moreover have "drop (Suc j) (ps[i := v]) = drop (Suc j) ps"
    using assms by simp
  ultimately show ?thesis
    by (simp add: splice_replace_def splice_remove_def)
qed

section \<open>Facts about \<open>checkCollision\<close> and \<open>applyGravity\<close>\<close>

lemma heap_checkCollision:
  "heap (checkCollision s a b) =
     (if collides (heap s ! a) (heap s ! b) then heap s @ [fusedPlanet (heap s ! a) (heap s ! b)]
      else heap s)"
  by (simp add: checkCollision_def Let_def)

lemma planets_checkCollision_subset:
  "set (planets (checkCollision s a b)) \<subseteq> insert (length (heap s)) (set (planets s))"
proof -
  have 1: "set (splice_replace (planets s) i v) \<subseteq> insert v (set (planets s))" for i v
    by (rule set_splice_replace)
  have 2: "set (splice_replace (splice_remove (planets s) j) i v) \<subseteq> insert v (set (planets s))"
    for i j v
    using set_splice_replace [of "splice_remove (planets s) j" i v]
      set_splice_remove [of "planets s" j] by auto
  have 3: "set (splice_remove (planets s) j) \<subseteq> insert v (set (planets s))" for j v
    using set_splice_remove [of "planets s" j] by auto
  show ?thesis
    using 1 2 3 by (auto simp: checkCollision_def Let_def split: option.splits)
qed

lemma planets_checkCollision_quiet:
  "\<not> collides (heap s ! a) (heap s ! b) \<Longrightarrow> checkCollision s a b = s"
  by (simp add: checkCollision_def Let_def)

lemma created_by_checkCollision:
  assumes "c \<in> set (planets (checkCollision s a b)) \<and> c \<notin> set (planets s)
           \<or> length (heap s) \<le> c \<and> c < length (heap (checkCollision s a b))"
  shows "collides (heap s ! a) (heap s ! b) \<and>
         heap (checkCollision s a b) ! c = fusedPlanet (heap s ! a) (heap s ! b)"
proof (cases "collides (heap s ! a) (heap s ! b)")
  case True
  then have "c = length (heap s)"
    using assms planets_checkCollision_subset [of s a b]
    by (auto simp: heap_checkCollision)
  with True show ?thesis by (simp add: heap_checkCollision)
next
  case False
  then show ?thesis
    using assms by (auto simp: planets_checkCollision_quiet)
qed


lemma heap_length_checkCollision: "length (heap s) \<le> length (heap (checkCollision s a b))"
  by (simp add: heap_checkCollision)

lemma checkCollision_same_heap:
  "length (heap (checkCollision s a b)) = length (heap s) \<Longrightarrow> checkCollision s a b = s"
  by (cases "collides (heap s ! a) (heap s ! b)")
    (simp_all add: heap_checkCollision planets_checkCollision_quiet)

lemma visits_checkCollision: "visits (checkCollision s a b) = visits s"
  by (simp add: checkCollision_def Let_def)

lemma visits_applyGravity: "visits (applyGravity s a b) = visits s"
  by (simp add: applyGravity_def Let_def)

lemma heap_length_applyGravity: "length (heap (applyGravity s a b)) = length (heap s)"
  by (simp add: applyGravity_def Let_def)

lemma applyGravity_trail:
  "length (heap (applyGravity s a b)) = length (heap s)
   \<and> trail (heap (applyGravity s a b) ! r) = trail (heap s ! r)
   \<and> fadeSpeed (heap (applyGravity s a b) ! r) = fadeSpeed (heap s ! r)"
proof (cases "a < length (heap s)")
  case True
  then show ?thesis
    by (cases "r = a") (simp_all add: applyGravity_def Let_def)
next
  case False
  then have "length (heap s) \<le> a" by simp
  then show ?thesis
    by (simp add: applyGravity_def Let_def list_update_beyond)
qed

section \<open>Evaluating the program on the example worlds\<close>

lemma sqrt_le_iff_square: "0 \<le> v \<Longrightarrow> sqrt v \<le> c \<longleftrightarrow> 0 \<le> c \<and> v \<le> c * c"
proof (cases "0 \<le> c")
  case True
  assume v: "0 \<le> v"
  have "sqrt v \<le> c \<longleftrightarrow> sqrt v \<le> sqrt (c * c)" using True by simp
  also have "\<dots> \<longleftrightarrow> v \<le> c * c" by (rule real_sqrt_le_iff)
  finally show ?thesis using True by simp
next
  case False
  assume v: "0 \<le> v"
  then have "0 \<le> sqrt v" by simp
  with False have "\<not> sqrt v \<le> c" by linarith
  with False show ?thesis by simp
qed

lemma collides_iff:
  "collides a b \<longleftrightarrow>
     0 \<le> (radius a + radius b) * distanceScale \<and>
     (pos_x b - pos_x a) * (pos_x b - pos_x a) + (pos_y b - pos_y a) * (pos_y b - pos_y a)
       \<le> ((radius a + radius b) * distanceScale) * ((radius a + radius b) * distanceScale)"
  unfolding collides_def Let_def
  by (rule sqrt_le_iff_square) simp

lemmas eval_defs = checkCollision_def applyGravity_def Let_def new_Planet_def fusedPlanet_def
  splice_remove_def splice_replace_def atan2_def G_def collides_iff distanceScale_def

lemmas tick_defs = animate_def animate_loop.simps update_def update_loop.simps

lemma sqrt_25: "sqrt 25 = 5"
  by (rule real_sqrt_unique) simp_all

lemma sqrt_9e18: "sqrt 9000000000000000000 = 3000000000"
  by (rule real_sqrt_unique) simp_all

lemma boundary_world_merge:
  "checkCollision boundary_world 0 1 =
     boundary_world\<lparr>heap := heap boundary_world @
        [new_Planet (4 * 10 ^ 9 / 3) 0 (sqrt 2) ''red'' 6 \<lparr>vel_x = - 1, vel_y = 11 / 3\<rparr> ''A+B''],
       planets := [2]\<rparr>"
  by (simp add: checkCollision_def collides_iff boundary_world_def new_Planet_def
      fusedPlanet_def distanceScale_def splice_remove_def splice_replace_def Let_def)

lemma lone_world_updates:
  "map life (trail (heap (updates lone_world [0, 0, 0]) ! 0)) = [197 / 200, 99 / 100, 199 / 200]
   \<and> length (heap (updates lone_world [0, 0, 0])) = 1"
  by (simp add: lone_world_def eval_defs tick_defs)

lemma merge3_tick:
  "\<exists>s'. animate merge3 = Inr s' \<and> planets s' = [3, 2] \<and> visits s' = [(0, 1), (2, 3)]"
  by (simp add: merge3_def eval_defs tick_defs sqrt_25)

lemma far_world_tick:
  "\<exists>s'. animate far_world = Inr s' \<and> planets s' = [0, 1]
     \<and> visits s' = [(0, 1), (1, 0)] \<and> length (heap s') = 2"
  by (simp add: far_world_def eval_defs tick_defs sqrt_9e18)

lemma coincident4_tick:
  "\<exists>s'. animate coincident4 = Inl (TypeError, s') \<and> planets s' = [7]
     \<and> visits s' = [(0, 1), (0, 3), (2, 4), (2, 6)]
     \<and> map name (heap s') = [''A'', ''B'', ''C'', ''D'', ''A+B'', ''A+D'', ''C+A+B'', ''C+C+A+B'']
     \<and> map mass (heap s') = [1, 2, 4, 8, 3, 9, 7, 11]"
  by (simp add: coincident4_def eval_defs tick_defs)

section \<open>Merging two bodies\<close>

text \<open>
  Claim C3. Every body that \<open>checkCollision s a b\<close> creates (a reference that is new
  in the heap, or new in \<open>planets\<close>) has mass \<open>a.mass + b.mass\<close>.
\<close>

theorem checkCollision_mass:
  assumes "c \<in> set (planets (checkCollision s a b)) \<and> c \<notin> set (planets s)
           \<or> length (heap s) \<le> c \<and> c < length (heap (checkCollision s a b))"
  shows "mass (heap (checkCollision s a b) ! c) = mass (heap s ! a) + mass (heap s ! b)"
proof -
  have c: "c = length (heap s) \<and> collides (heap s ! a) (heap s ! b)"
  proof (cases "collides (heap s ! a) (heap s ! b)")
    case True
    then show ?thesis
      using assms planets_checkCollision_subset [of s a b]
      by (auto simp: heap_checkCollision)
  next
    case False
    then show ?thesis
      using assms by (auto simp: planets_checkCollision_quiet)
  qed
  then show ?thesis
    by (simp add: heap_checkCollision fusedPlanet_def new_Planet_def Let_def)
qed

theorem checkCollision_mass_witness:
  "2 \<in> set (planets (checkCollision boundary_world 0 1))
   \<and> 2 \<notin> set (planets boundary_world)
   \<and> mass (heap (checkCollision boundary_world 0 1) ! 2) = 6
   \<and> mass (heap boundary_world ! 0) + mass (heap boundary_world ! 1) = 6"
proof -
  have h: "2 \<in> set (planets (checkCollision boundary_world 0 1))
           \<and> 2 \<notin> set (planets boundary_world)"
    unfolding boundary_world_merge by (simp add: boundary_world_def)
  have "mass (heap (checkCollision boundary_world 0 1) ! 2)
        = mass (heap boundary_world ! 0) + mass (heap boundary_world ! 1)"
    using h by (intro checkCollision_mass) simp
  moreover have "mass (heap boundary_world ! 0) + mass (heap boundary_world ! 1) = 6"
    by (simp add: boundary_world_def new_Planet_def)
  ultimately show ?thesis using h by simp
qed

text \<open>
  In exact arithmetic the body that \<open>checkCollision s a b\<close> creates conserves linear
  momentum on each axis, for positive masses.
\<close>

lemma checkCollision_momentum_exact:
  assumes "c \<in> set (planets (checkCollision s a b)) \<and> c \<notin> set (planets s)
           \<or> length (heap s) \<le> c \<and> c < length (heap (checkCollision s a b))"
    and "0 < mass (heap s ! a)" and "0 < mass (heap s ! b)"
  shows "vel_x (velocity (heap (checkCollision s a b) ! c)) * mass (heap (checkCollision s a b) ! c)
           = vel_x (velocity (heap s ! a)) * mass (heap s ! a)
             + vel_x (velocity (heap s ! b)) * mass (heap s ! b)
       \<and> vel_y (velocity (heap (checkCollision s a b) ! c)) * mass (heap (checkCollision s a b) ! c)
           = vel_y (velocity (heap s ! a)) * mass (heap s ! a)
             + vel_y (velocity (heap s ! b)) * mass (heap s ! b)"
proof -
  have "mass (heap s ! a) + mass (heap s ! b) \<noteq> 0"
    using assms(2,3) by simp
  then show ?thesis
    using created_by_checkCollision [OF assms(1)]
    by (simp add: fusedPlanet_def new_Planet_def Let_def)
qed











text \<open>
  The test is inclusive, and with \<open>this\<close> before \<open>other\<close> the merge is in place. For
  two different live bodies \<open>a\<close>, \<open>b\<close> at distance exactly
  \<open>(a.radius + b.radius) * distanceScale\<close>, \<open>checkCollision\<close> takes the collision branch:
  the fused planet is constructed and spliced into \<open>planets\<close>, \<open>b\<close> is removed, and when
  \<open>a\<close> stands before \<open>b\<close> in the array the fused planet takes the slot of \<open>a\<close>. At a
  strictly greater distance the call changes nothing.
\<close>

lemma checkCollision_at_boundary:
  assumes "b < length (heap s)" and "a \<in> set (planets s)" and "b \<in> set (planets s)"
    and "a \<noteq> b" and "distinct (planets s)"
  shows "(sqrt ((pos_x (heap s ! b) - pos_x (heap s ! a)) * (pos_x (heap s ! b) - pos_x (heap s ! a))
              + (pos_y (heap s ! b) - pos_y (heap s ! a)) * (pos_y (heap s ! b) - pos_y (heap s ! a)))
            = (radius (heap s ! a) + radius (heap s ! b)) * distanceScale \<longrightarrow>
          heap (checkCollision s a b) = heap s @ [fusedPlanet (heap s ! a) (heap s ! b)]
          \<and> length (heap s) \<in> set (planets (checkCollision s a b))
          \<and> b \<notin> set (planets (checkCollision s a b))
          \<and> (\<forall>i j. indexOf (planets s) a = Some i \<and> indexOf (planets s) b = Some j \<and> i < j \<longrightarrow>
                 planets (checkCollision s a b)
                   = splice_remove ((planets s)[i := length (heap s)]) j))
       \<and> ((radius (heap s ! a) + radius (heap s ! b)) * distanceScale
            < sqrt ((pos_x (heap s ! b) - pos_x (heap s ! a)) * (pos_x (heap s ! b) - pos_x (heap s ! a))
              + (pos_y (heap s ! b) - pos_y (heap s ! a)) * (pos_y (heap s ! b) - pos_y (heap s ! a))) \<longrightarrow>
          checkCollision s a b = s)"
proof -
  obtain i where i: "indexOf (planets s) a = Some i"
    using assms(2) indexOf_None_iff [of "planets s" a] by auto
  obtain j where j: "indexOf (planets s) b = Some j"
    using assms(3) indexOf_None_iff [of "planets s" b] by auto
  have jl: "j < length (planets s)" and jb: "planets s ! j = b"
    using j indexOf_less indexOf_nth by auto
  let ?c = "length (heap s)"
  let ?ps1 = "splice_remove (planets s) j"
  have ps1: "set ?ps1 = set (planets s) - {b}"
    using set_splice_remove_distinct [OF assms(5) jl] jb by simp
  have nb: "b \<notin> set (splice_replace ?ps1 i ?c)"
    using set_splice_replace [of ?ps1 i ?c] ps1 assms(1) by auto
  have inplace: "i < j \<Longrightarrow> splice_replace ?ps1 i ?c = splice_remove ((planets s)[i := ?c]) j"
    using jl by (simp add: splice_in_place)
  have merge: "heap (checkCollision s a b) = heap s @ [fusedPlanet (heap s ! a) (heap s ! b)]
      \<and> planets (checkCollision s a b) = splice_replace ?ps1 i ?c"
    if "collides (heap s ! a) (heap s ! b)"
    using that i j by (simp add: checkCollision_def Let_def)
  show ?thesis
  proof (intro conjI impI allI)
    assume "(radius (heap s ! a) + radius (heap s ! b)) * distanceScale
            < sqrt ((pos_x (heap s ! b) - pos_x (heap s ! a)) * (pos_x (heap s ! b) - pos_x (heap s ! a))
              + (pos_y (heap s ! b) - pos_y (heap s ! a)) * (pos_y (heap s ! b) - pos_y (heap s ! a)))"
    then have "\<not> collides (heap s ! a) (heap s ! b)"
      by (simp add: collides_def Let_def)
    then show "checkCollision s a b = s"
      by (rule planets_checkCollision_quiet)
  next
    assume "sqrt ((pos_x (heap s ! b) - pos_x (heap s ! a)) * (pos_x (heap s ! b) - pos_x (heap s ! a))
              + (pos_y (heap s ! b) - pos_y (heap s ! a)) * (pos_y (heap s ! b) - pos_y (heap s ! a)))
            = (radius (heap s ! a) + radius (heap s ! b)) * distanceScale"
    then have c: "collides (heap s ! a) (heap s ! b)"
      by (simp add: collides_def Let_def)
    show "heap (checkCollision s a b) = heap s @ [fusedPlanet (heap s ! a) (heap s ! b)]"
      using merge [OF c] by simp
    show "?c \<in> set (planets (checkCollision s a b))"
      using merge [OF c] by (simp add: splice_replace_mem)
    show "b \<notin> set (planets (checkCollision s a b))"
      using merge [OF c] nb by simp
    fix i' j'
    assume "indexOf (planets s) a = Some i' \<and> indexOf (planets s) b = Some j' \<and> i' < j'"
    then have "i' = i" and "j' = j" and "i < j"
      using i j by simp_all
    then show "planets (checkCollision s a b) = splice_remove ((planets s)[i' := ?c]) j'"
      using merge [OF c] inplace by simp
  qed
qed

text \<open>
  Claim C5, evaluated with \<open>other\<close> before \<open>this\<close>. In \<open>reversed_world\<close> the array is
  \<open>[B, A, C]\<close> and \<open>A\<close>, \<open>B\<close> are exactly \<open>(1 + 1) * distanceScale\<close> apart. The call
  \<open>A.checkCollision(B)\<close> reads \<open>indexThis = 1\<close> and \<open>indexOther = 0\<close>, splices \<open>B\<close> out,
  and then replaces the entry at the stale index 1, which by now is \<open>C\<close>: the array
  becomes \<open>[A, A+B]\<close>. The collision is detected, but \<open>A\<close> is still live beside the
  fused planet that holds its mass, and the bystander \<open>C\<close> is gone.
\<close>

theorem checkCollision_stale_index:
  "sqrt ((pos_x (heap reversed_world ! 1) - pos_x (heap reversed_world ! 0))
           * (pos_x (heap reversed_world ! 1) - pos_x (heap reversed_world ! 0))
         + (pos_y (heap reversed_world ! 1) - pos_y (heap reversed_world ! 0))
           * (pos_y (heap reversed_world ! 1) - pos_y (heap reversed_world ! 0)))
     = (radius (heap reversed_world ! 0) + radius (heap reversed_world ! 1)) * distanceScale
   \<and> planets reversed_world = [1, 0, 2]
   \<and> planets (checkCollision reversed_world 0 1) = [0, 3]
   \<and> length (heap (checkCollision reversed_world 0 1)) = 4
   \<and> name (heap (checkCollision reversed_world 0 1) ! 0) = ''A''
   \<and> mass (heap (checkCollision reversed_world 0 1) ! 0) = 2
   \<and> name (heap (checkCollision reversed_world 0 1) ! 3) = ''A+B''
   \<and> mass (heap (checkCollision reversed_world 0 1) ! 3) = 6
   \<and> pos_x (heap (checkCollision reversed_world 0 1) ! 3) = 4 * 10 ^ 9 / 3
   \<and> name (heap (checkCollision reversed_world 0 1) ! 2) = ''C''"
proof -
  have sq4: "sqrt 4000000000000000000 = 2000000000"
    by (rule real_sqrt_unique) simp_all
  have "sqrt ((pos_x (heap reversed_world ! 1) - pos_x (heap reversed_world ! 0))
           * (pos_x (heap reversed_world ! 1) - pos_x (heap reversed_world ! 0))
         + (pos_y (heap reversed_world ! 1) - pos_y (heap reversed_world ! 0))
           * (pos_y (heap reversed_world ! 1) - pos_y (heap reversed_world ! 0)))
     = (radius (heap reversed_world ! 0) + radius (heap reversed_world ! 1)) * distanceScale"
    by (simp add: reversed_world_def new_Planet_def distanceScale_def sq4)
  moreover have "planets reversed_world = [1, 0, 2]
   \<and> planets (checkCollision reversed_world 0 1) = [0, 3]
   \<and> length (heap (checkCollision reversed_world 0 1)) = 4
   \<and> name (heap (checkCollision reversed_world 0 1) ! 0) = ''A''
   \<and> mass (heap (checkCollision reversed_world 0 1) ! 0) = 2
   \<and> name (heap (checkCollision reversed_world 0 1) ! 3) = ''A+B''
   \<and> mass (heap (checkCollision reversed_world 0 1) ! 3) = 6
   \<and> pos_x (heap (checkCollision reversed_world 0 1) ! 3) = 4 * 10 ^ 9 / 3
   \<and> name (heap (checkCollision reversed_world 0 1) ! 2) = ''C''"
    by (simp add: reversed_world_def eval_defs)
  ultimately show ?thesis by blast
qed

section \<open>The frame of \<open>applyGravity\<close>\<close>

text \<open>
  Claim C7. \<open>applyGravity(a, b)\<close> with \<open>a\<close> and \<open>b\<close> different objects writes only
  \<open>a.velocity\<close>: \<open>b\<close> and every other object are unchanged, the position, mass, radius
  and trail of \<open>a\<close> are unchanged, and so is the array \<open>planets\<close>. This holds for every
  mass of \<open>a\<close>, positive or not.
\<close>

theorem applyGravity_frame:
  assumes "a \<noteq> b"
  shows "heap (applyGravity s a b) ! b = heap s ! b
       \<and> pos_x (heap (applyGravity s a b) ! a) = pos_x (heap s ! a)
       \<and> pos_y (heap (applyGravity s a b) ! a) = pos_y (heap s ! a)
       \<and> mass (heap (applyGravity s a b) ! a) = mass (heap s ! a)
       \<and> radius (heap (applyGravity s a b) ! a) = radius (heap s ! a)
       \<and> trail (heap (applyGravity s a b) ! a) = trail (heap s ! a)
       \<and> (\<forall>r. r \<noteq> a \<longrightarrow> heap (applyGravity s a b) ! r = heap s ! r)
       \<and> length (heap (applyGravity s a b)) = length (heap s)
       \<and> planets (applyGravity s a b) = planets s"
proof (cases "a < length (heap s)")
  case True
  then show ?thesis
    using assms by (simp add: applyGravity_def Let_def)
next
  case False
  then have "length (heap s) \<le> a" by simp
  then show ?thesis
    using assms by (simp add: applyGravity_def Let_def list_update_beyond)
qed

theorem applyGravity_frame_witness:
  "heap (applyGravity boundary_world 0 1) ! 1 = heap boundary_world ! 1
   \<and> pos_x (heap (applyGravity boundary_world 0 1) ! 0) = 0
   \<and> pos_y (heap (applyGravity boundary_world 0 1) ! 0) = 0
   \<and> mass (heap (applyGravity boundary_world 0 1) ! 0) = 2
   \<and> radius (heap (applyGravity boundary_world 0 1) ! 0) = 1
   \<and> trail (heap (applyGravity boundary_world 0 1) ! 0) = []
   \<and> planets (applyGravity boundary_world 0 1) = [0, 1]"
proof -
  have h: "(0::nat) \<noteq> 1" by simp
  show ?thesis
    using applyGravity_frame [OF h, of boundary_world]
    by (simp add: boundary_world_def new_Planet_def)
qed

section \<open>A stale \<open>this\<close> in \<open>checkCollision\<close>\<close>

text \<open>
  Claim C2, evaluated. In \<open>coincident4\<close> the call \<open>planets[0].update()\<close> first merges
  \<open>A\<close> (reference 0) with \<open>B\<close>: \<open>planets\<close> becomes \<open>[4, 2, 3]\<close> and \<open>A\<close> is no longer
  in it. The loop of \<open>A\<close> goes on, reaches \<open>D\<close> (reference 3) and calls
  \<open>checkCollision\<close> with the stale \<open>this\<close>: \<open>D\<close> is spliced out and the fused planet
  \<open>A+D\<close> (reference 5) is built but never put into \<open>planets\<close>.
\<close>

theorem checkCollision_stale_this:
  "planets (checkCollision (applyGravity coincident4 0 1) 0 1) = [4, 2, 3]
   \<and> planets (checkCollision (checkCollision (applyGravity coincident4 0 1) 0 1) 0 3) = [4, 2]
   \<and> visits (update coincident4 0) = [(0, 1), (0, 3)]
   \<and> planets (update coincident4 0) = [4, 2]
   \<and> length (heap (update coincident4 0)) = 6
   \<and> name (heap (update coincident4 0) ! 4) = ''A+B''
   \<and> name (heap (update coincident4 0) ! 5) = ''A+D''"
  by (simp add: coincident4_def eval_defs tick_defs)

section \<open>Trail maintenance\<close>

lemma set_evict: "set (evict ts) \<subseteq> set ts"
  by (induction ts) auto

lemma sorted_wrt_evict: "sorted_wrt P ts \<Longrightarrow> sorted_wrt P (evict ts)"
  by (induction ts) auto

lemma evict_positive:
  assumes "sorted_wrt (\<lambda>t u. life t + f \<le> life u) ts" and "0 \<le> f"
  shows "\<forall>t \<in> set (evict ts). 0 < life t"
  using assms(1)
proof (induction ts)
  case Nil
  show ?case by simp
next
  case (Cons t ts)
  show ?case
  proof (cases "life t \<le> 0")
    case True
    then show ?thesis using Cons by simp
  next
    case False
    then have "\<forall>u \<in> set ts. 0 < life u"
      using Cons.prems assms(2) by fastforce
    with False show ?thesis by simp
  qed
qed



lemma trail_ok_increasing:
  assumes "trail_ok p"
  shows "sorted_wrt (<) (map life (trail p))"
proof -
  have "sorted_wrt (\<lambda>t u. life t + 1 / 200 \<le> life u) (trail p)"
    using assms by (simp add: trail_ok_def)
  then have "sorted_wrt (\<lambda>t u. life t < life u) (trail p)"
    by (rule sorted_wrt_mono_rel [rotated]) simp
  then show ?thesis by (simp only: sorted_wrt_map)
qed

lemma trail_ok_step:
  assumes "trail_ok p"
  shows "trail_ok (p\<lparr>trail := evict (map (\<lambda>t. t\<lparr>life := life t - fadeSpeed p\<rparr>)
                  (trail p @ [\<lparr>tp_x = a, tp_y = b, life = 1\<rparr>]))\<rparr>)"
proof -
  let ?g = "\<lambda>t. t\<lparr>life := life t - fadeSpeed p\<rparr>"
  let ?new = "\<lparr>tp_x = a, tp_y = b, life = 1\<rparr>"
  let ?ts = "map ?g (trail p @ [?new])"
  have f: "fadeSpeed p = 1 / 200" using assms by (simp add: trail_ok_def)
  have s: "sorted_wrt (\<lambda>t u. life t + 1 / 200 \<le> life u) (trail p)"
    and b: "\<forall>t \<in> set (trail p). 0 < life t \<and> life t \<le> 199 / 200"
    using assms by (simp_all add: trail_ok_def)
  have "sorted_wrt (\<lambda>t u. life t + 1 / 200 \<le> life u) (trail p @ [?new])"
    using s b by (auto simp: sorted_wrt_append)
  then have "sorted_wrt (\<lambda>t u. life (?g t) + 1 / 200 \<le> life (?g u)) (trail p @ [?new])"
    by (rule sorted_wrt_mono_rel [rotated]) simp
  then have sorted: "sorted_wrt (\<lambda>t u. life t + 1 / 200 \<le> life u) ?ts"
    by (simp only: sorted_wrt_map)
  have upper: "\<forall>t \<in> set ?ts. life t \<le> 199 / 200"
    using b f by auto
  have 1: "fadeSpeed (p\<lparr>trail := evict ?ts\<rparr>) = 1 / 200"
    using f by simp
  have 2: "trail (p\<lparr>trail := evict ?ts\<rparr>) = evict ?ts"
    by simp
  have "sorted_wrt (\<lambda>t u. life t + 1 / 200 \<le> life u) (evict ?ts)"
    using sorted by (rule sorted_wrt_evict)
  moreover have "\<forall>t \<in> set (evict ?ts). 0 < life t"
    using sorted by (rule evict_positive) simp
  moreover have "\<forall>t \<in> set (evict ?ts). life t \<le> 199 / 200"
    using upper set_evict [of ?ts] by blast
  ultimately show ?thesis
    unfolding trail_ok_def 2 using 1 by blast
qed

lemma trail_ok_cong:
  "trail q = trail p \<Longrightarrow> fadeSpeed q = fadeSpeed p \<Longrightarrow> trail_ok p \<Longrightarrow> trail_ok q"
  by (simp add: trail_ok_def)

lemma trails_ok_list_update:
  assumes "\<forall>p \<in> set h. trail_ok p" and "r < length h \<Longrightarrow> trail_ok q"
  shows "\<forall>p \<in> set (h[r := q]). trail_ok p"
proof (cases "r < length h")
  case True
  then show ?thesis
    using assms set_update_subset_insert [of h r q] by auto
next
  case False
  then show ?thesis using assms(1) by (simp add: list_update_beyond)
qed

lemma trails_ok_nth: "trails_ok s \<longleftrightarrow> (\<forall>r < length (heap s). trail_ok (heap s ! r))"
  by (simp add: trails_ok_def all_set_conv_all_nth)

lemma trails_ok_applyGravity: "trails_ok s \<Longrightarrow> trails_ok (applyGravity s a b)"
  unfolding trails_ok_nth
  using applyGravity_trail [of s a b] trail_ok_cong by metis

lemma trail_ok_fusedPlanet: "trail_ok (fusedPlanet a b)"
  by (simp add: trail_ok_def fusedPlanet_def new_Planet_def Let_def)

lemma trails_ok_checkCollision: "trails_ok s \<Longrightarrow> trails_ok (checkCollision s a b)"
  by (auto simp: trails_ok_def heap_checkCollision trail_ok_fusedPlanet)

lemma trails_ok_visits: "trails_ok (s\<lparr>visits := v\<rparr>) = trails_ok s"
  by (simp add: trails_ok_def)

lemma trails_ok_update_loop: "trails_ok s \<Longrightarrow> trails_ok (update_loop s this k)"
proof (induction s this k rule: update_loop.induct)
  case (1 s this k)
  show ?case
  proof (cases "k < length (planets s)")
    case False
    then show ?thesis using "1.prems" by (subst update_loop.simps) simp
  next
    case k: True
    show ?thesis
    proof (cases "planets s ! k = this")
      case True
      then show ?thesis
        using k "1.IH"(2) "1.prems" by (subst update_loop.simps) simp
    next
      case False
      let ?s' = "checkCollision
                (applyGravity (s\<lparr>visits := visits s @ [(this, planets s ! k)]\<rparr>)
                   this (planets s ! k))
                this (planets s ! k)"
      have "trails_ok ?s'"
        using "1.prems"
        by (intro trails_ok_checkCollision trails_ok_applyGravity) (simp add: trails_ok_visits)
      then have "trails_ok (update_loop ?s' this (Suc k))"
        using k False "1.IH"(1) by blast
      then show ?thesis
        using k False by (subst update_loop.simps) simp
    qed
  qed
qed

lemma trails_ok_update: "trails_ok s \<Longrightarrow> trails_ok (update s this)"
proof -
  assume "trails_ok s"
  then have ok: "trails_ok (update_loop s this 0)" by (rule trails_ok_update_loop)
  let ?s1 = "update_loop s this 0"
  let ?p = "heap ?s1 ! this"
  let ?p2 = "?p\<lparr>pos_x := pos_x ?p + vel_x (velocity ?p) * dt ?s1,
                 pos_y := pos_y ?p + vel_y (velocity ?p) * dt ?s1\<rparr>"
  let ?q = "?p2\<lparr>trail := evict (map (\<lambda>t. t\<lparr>life := life t - fadeSpeed ?p2\<rparr>)
                  (trail ?p2 @ [\<lparr>tp_x = pos_x ?p2, tp_y = pos_y ?p2, life = 1\<rparr>]))\<rparr>"
  have h: "heap (update s this) = (heap ?s1)[this := ?q]"
    by (simp add: update_def Let_def)
  have "trail_ok ?q" if "this < length (heap ?s1)"
  proof -
    have "trail_ok ?p" using ok that by (simp add: trails_ok_def)
    then have "trail_ok ?p2" by (rule trail_ok_cong [rotated 2]) simp_all
    then show ?thesis by (rule trail_ok_step)
  qed
  then show ?thesis
    using ok trails_ok_list_update [of "heap ?s1" this ?q]
    unfolding trails_ok_def h by blast
qed

lemma trails_ok_updates: "trails_ok s \<Longrightarrow> trails_ok (updates s rs)"
  by (induction rs arbitrary: s) (simp_all add: trails_ok_update)



lemma fresh_trails_ok:
  "\<forall>p \<in> set (heap s). trail p = [] \<and> fadeSpeed p = 5 / 1000 \<Longrightarrow> trails_ok s"
  by (simp add: trails_ok_def trail_ok_def)



text \<open>
  Claim C10. From planets as the constructor leaves them, after any sequence of
  \<open>update\<close> calls the lives in every trail are strictly increasing from front to back,
  the front point has the least life, and no point has life \<open>\<le> 0\<close>.
\<close>

theorem trail_lives_increasing:
  assumes "\<forall>p \<in> set (heap s). trail p = [] \<and> fadeSpeed p = 5 / 1000"
  shows "\<forall>p \<in> set (heap (updates s rs)).
           sorted_wrt (<) (map life (trail p))
           \<and> (\<forall>t \<in> set (trail p). 0 < life t \<and> life (hd (trail p)) \<le> life t)"
proof
  fix p
  assume "p \<in> set (heap (updates s rs))"
  moreover have "trails_ok (updates s rs)"
    using assms by (intro trails_ok_updates fresh_trails_ok)
  ultimately have ok: "trail_ok p" by (simp add: trails_ok_def)
  then have inc: "sorted_wrt (<) (map life (trail p))" by (rule trail_ok_increasing)
  have "life (hd (trail p)) \<le> life t" if "t \<in> set (trail p)" for t
  proof (cases "trail p")
    case Nil
    with that show ?thesis by simp
  next
    case (Cons u us)
    with inc that show ?thesis by auto
  qed
  moreover have "0 < life t" if "t \<in> set (trail p)" for t
    using ok that by (simp add: trail_ok_def)
  ultimately show "sorted_wrt (<) (map life (trail p))
           \<and> (\<forall>t \<in> set (trail p). 0 < life t \<and> life (hd (trail p)) \<le> life t)"
    using inc by blast
qed

theorem trail_lives_increasing_witness:
  "map trail (heap lone_world) = [[]] \<and> map fadeSpeed (heap lone_world) = [5 / 1000]
   \<and> sorted_wrt (<) (map life (trail (heap (updates lone_world [0, 0, 0]) ! 0)))
   \<and> map life (trail (heap (updates lone_world [0, 0, 0]) ! 0)) = [197 / 200, 99 / 100, 199 / 200]"
proof -
  have h: "\<forall>p \<in> set (heap lone_world). trail p = [] \<and> fadeSpeed p = 5 / 1000"
    by (simp add: lone_world_def new_Planet_def)
  have len: "length (heap (updates lone_world [0, 0, 0])) = 1"
    using lone_world_updates by (rule conjunct2)
  have "heap (updates lone_world [0, 0, 0]) ! 0 \<in> set (heap (updates lone_world [0, 0, 0]))"
    by (rule nth_mem) (simp only: len zero_less_one)
  then have "sorted_wrt (<) (map life (trail (heap (updates lone_world [0, 0, 0]) ! 0)))"
    using trail_lives_increasing [OF h, of "[0, 0, 0]"] by blast
  moreover have "map trail (heap lone_world) = [[]] \<and> map fadeSpeed (heap lone_world) = [5 / 1000]"
    by (simp add: lone_world_def new_Planet_def)
  ultimately show ?thesis using lone_world_updates by simp
qed

section \<open>The pairs a tick visits\<close>

lemma update_loop_visits:
  "set (visits (update_loop s this k)) \<subseteq> set (visits s) \<union> {(a, b). a \<noteq> b}"
proof (induction s this k rule: update_loop.induct)
  case (1 s this k)
  show ?case
  proof (cases "k < length (planets s)")
    case False
    then show ?thesis by (subst update_loop.simps) simp
  next
    case k: True
    show ?thesis
    proof (cases "planets s ! k = this")
      case True
      then show ?thesis
        using k "1.IH"(2) by (subst update_loop.simps) simp
    next
      case False
      let ?s' = "checkCollision
                (applyGravity (s\<lparr>visits := visits s @ [(this, planets s ! k)]\<rparr>)
                   this (planets s ! k))
                this (planets s ! k)"
      have "visits ?s' = visits s @ [(this, planets s ! k)]"
        by (simp add: visits_checkCollision visits_applyGravity)
      then have "set (visits ?s') \<subseteq> set (visits s) \<union> {(a, b). a \<noteq> b}"
        using False by auto
      moreover have "set (visits (update_loop ?s' this (Suc k)))
          \<subseteq> set (visits ?s') \<union> {(a, b). a \<noteq> b}"
        using k False by (rule "1.IH"(1))
      ultimately have "set (visits (update_loop ?s' this (Suc k)))
          \<subseteq> set (visits s) \<union> {(a, b). a \<noteq> b}"
        by blast
      then show ?thesis
        using k False by (subst update_loop.simps) simp
    qed
  qed
qed

lemma visits_update: "visits (update s this) = visits (update_loop s this 0)"
  by (simp add: update_def Let_def)

lemma animate_loop_visits:
  "set (visits (world_of (animate_loop s i))) \<subseteq> set (visits s) \<union> {(a, b). a \<noteq> b}"
proof (induction s i rule: animate_loop.induct)
  case (1 s i)
  let ?s1 = "update s (planets s ! i)"
  have s1: "set (visits ?s1) \<subseteq> set (visits s) \<union> {(a, b). a \<noteq> b}"
    by (simp add: visits_update update_loop_visits)
  show ?case
  proof (cases "i < length (planets s)")
    case False
    then show ?thesis by (subst animate_loop.simps) simp
  next
    case i: True
    show ?thesis
    proof (cases "i < length (planets ?s1)")
      case False
      then show ?thesis
        using i s1 by (subst animate_loop.simps) simp
    next
      case True
      have "set (visits (world_of (animate_loop ?s1 (Suc i))))
          \<subseteq> set (visits ?s1) \<union> {(a, b). a \<noteq> b}"
        using i True by (rule "1.IH")
      then have "set (visits (world_of (animate_loop ?s1 (Suc i))))
          \<subseteq> set (visits s) \<union> {(a, b). a \<noteq> b}"
        using s1 by blast
      then show ?thesis
        using i True by (subst animate_loop.simps) simp
    qed
  qed
qed

text \<open>
  Claim C6, the part that holds. Every pair \<open>(this, other)\<close> a tick passes to
  \<open>applyGravity\<close> and \<open>checkCollision\<close> has \<open>this\<close> and \<open>other\<close> different objects.
\<close>

theorem no_self_visit:
  assumes "(a, b) \<in> set (visits (world_of (animate s)))" and "(a, b) \<notin> set (visits s)"
  shows "a \<noteq> b"
proof (cases "isPaused s")
  case True
  then show ?thesis using assms by (simp add: animate_def)
next
  case False
  then have "set (visits (world_of (animate s))) \<subseteq> set (visits s) \<union> {(a, b). a \<noteq> b}"
    using animate_loop_visits [of s 0] by (simp add: animate_def)
  then show ?thesis using assms by auto
qed

theorem no_self_visit_witness:
  "(0, 1) \<in> set (visits (world_of (animate far_world)))
   \<and> (0, 1) \<notin> set (visits far_world) \<and> (0::nat) \<noteq> 1"
proof -
  obtain s' where s': "animate far_world = Inr s'" "visits s' = [(0, 1), (1, 0)]"
    using far_world_tick by blast
  have a: "(0, 1) \<in> set (visits (world_of (animate far_world)))"
    using s' by simp
  have b: "(0, 1) \<notin> set (visits far_world)"
    by (simp add: far_world_def)
  show ?thesis
    using no_self_visit [OF a b] a b by simp
qed

text \<open>
  Claim C6 as stated fails for a merged body. In the tick of \<open>coincident4\<close>, \<open>C\<close>
  (reference 2) merges with \<open>A+B\<close>; the fused planet \<open>C+A+B\<close> (reference 6, built in
  this tick) is spliced in behind \<open>C\<close>, and the loop of \<open>C\<close> then applies gravity from it
  and checks collision against it.
\<close>

theorem self_merged_body_counterexample:
  "(2, 6) \<in> set (visits (world_of (animate coincident4)))
   \<and> length (heap coincident4) = 4
   \<and> name (heap (world_of (animate coincident4)) ! 2) = ''C''
   \<and> name (heap (world_of (animate coincident4)) ! 6) = ''C+A+B''
   \<and> mass (heap (world_of (animate coincident4)) ! 6) = 7"
proof -
  from coincident4_tick obtain s' where all:
    "animate coincident4 = Inl (TypeError, s') \<and> planets s' = [7]
     \<and> visits s' = [(0, 1), (0, 3), (2, 4), (2, 6)]
     \<and> map name (heap s') = [''A'', ''B'', ''C'', ''D'', ''A+B'', ''A+D'', ''C+A+B'', ''C+C+A+B'']
     \<and> map mass (heap s') = [1, 2, 4, 8, 3, 9, 7, 11]" ..
  then have s': "animate coincident4 = Inl (TypeError, s')"
    "visits s' = [(0, 1), (0, 3), (2, 4), (2, 6)]"
    "map name (heap s') = [''A'', ''B'', ''C'', ''D'', ''A+B'', ''A+D'', ''C+A+B'', ''C+C+A+B'']"
    "map mass (heap s') = [1, 2, 4, 8, 3, 9, 7, 11]"
    by simp_all
  have "length (map name (heap s')) = 8"
    unfolding s'(3) by simp
  then have len: "length (heap s') = 8" by simp
  have "name (heap s' ! 2) = map name (heap s') ! 2" "name (heap s' ! 6) = map name (heap s') ! 6"
    "mass (heap s' ! 6) = map mass (heap s') ! 6"
    using len by simp_all
  then have "name (heap s' ! 2) = ''C''" "name (heap s' ! 6) = ''C+A+B''" "mass (heap s' ! 6) = 7"
    unfolding s'(3,4) by simp_all
  moreover have "length (heap coincident4) = 4" by (simp add: coincident4_def)
  ultimately show ?thesis using s'(1,2) by simp
qed

lemma heap_length_update_loop: "length (heap s) \<le> length (heap (update_loop s this k))"
proof (induction s this k rule: update_loop.induct)
  case (1 s this k)
  show ?case
  proof (cases "k < length (planets s)")
    case False
    then show ?thesis by (subst update_loop.simps) simp
  next
    case k: True
    show ?thesis
    proof (cases "planets s ! k = this")
      case True
      then show ?thesis
        using k "1.IH"(2) by (subst update_loop.simps) simp
    next
      case False
      let ?s1 = "applyGravity (s\<lparr>visits := visits s @ [(this, planets s ! k)]\<rparr>)
                   this (planets s ! k)"
      let ?s' = "checkCollision ?s1 this (planets s ! k)"
      have "length (heap s) = length (heap ?s1)"
        by (simp add: heap_length_applyGravity)
      also have "\<dots> \<le> length (heap ?s')"
        by (rule heap_length_checkCollision)
      also have "\<dots> \<le> length (heap (update_loop ?s' this (Suc k)))"
        using k False by (rule "1.IH"(1))
      finally show ?thesis
        using k False by (subst update_loop.simps) simp
    qed
  qed
qed

lemma update_loop_quiet:
  "length (heap (update_loop s this k)) = length (heap s) \<Longrightarrow>
     planets (update_loop s this k) = planets s
     \<and> visits (update_loop s this k)
         = visits s @ map (Pair this) (filter (\<lambda>p. p \<noteq> this) (drop k (planets s)))"
proof (induction s this k rule: update_loop.induct)
  case (1 s this k)
  show ?case
  proof (cases "k < length (planets s)")
    case False
    then show ?thesis by (subst (1 2) update_loop.simps) simp
  next
    case k: True
    have drop: "drop k (planets s) = planets s ! k # drop (Suc k) (planets s)"
      using k by (simp add: Cons_nth_drop_Suc)
    show ?thesis
    proof (cases "planets s ! k = this")
      case True
      have eq: "update_loop s this k = update_loop s this (Suc k)"
        using k True by (subst update_loop.simps) simp
      have "planets (update_loop s this (Suc k)) = planets s
          \<and> visits (update_loop s this (Suc k))
              = visits s @ map (Pair this) (filter (\<lambda>p. p \<noteq> this) (drop (Suc k) (planets s)))"
        using k True "1.prems" "1.IH"(2) unfolding eq by simp
      then show ?thesis
        unfolding eq drop using True by simp
    next
      case False
      let ?s0 = "s\<lparr>visits := visits s @ [(this, planets s ! k)]\<rparr>"
      let ?s1 = "applyGravity ?s0 this (planets s ! k)"
      let ?s' = "checkCollision ?s1 this (planets s ! k)"
      have eq: "update_loop s this k = update_loop ?s' this (Suc k)"
        using k False by (subst update_loop.simps) simp
      have l1: "length (heap ?s1) = length (heap s)"
        by (simp add: heap_length_applyGravity)
      have "length (heap ?s1) \<le> length (heap ?s')"
        by (rule heap_length_checkCollision)
      moreover have "length (heap ?s') \<le> length (heap (update_loop ?s' this (Suc k)))"
        by (rule heap_length_update_loop)
      ultimately have l2: "length (heap ?s') = length (heap ?s1)"
        and l3: "length (heap (update_loop ?s' this (Suc k))) = length (heap ?s')"
        using "1.prems" l1 unfolding eq by simp_all
      have same: "?s' = ?s1" using l2 by (rule checkCollision_same_heap)
      have p: "planets ?s' = planets s"
        unfolding same by (simp add: planets_applyGravity)
      have v: "visits ?s' = visits s @ [(this, planets s ! k)]"
        unfolding same by (simp add: visits_applyGravity)
      have "planets (update_loop ?s' this (Suc k)) = planets ?s'
          \<and> visits (update_loop ?s' this (Suc k))
              = visits ?s' @ map (Pair this) (filter (\<lambda>p. p \<noteq> this) (drop (Suc k) (planets ?s')))"
        using k False l3 by (rule "1.IH"(1))
      then show ?thesis
        unfolding eq drop p v using False by simp
    qed
  qed
qed

lemma heap_length_update: "length (heap (update s this)) = length (heap (update_loop s this 0))"
  by (simp add: update_def Let_def)

lemma update_quiet:
  assumes "length (heap (update s this)) = length (heap s)"
  shows "planets (update s this) = planets s
     \<and> visits (update s this) = visits s @ map (Pair this) (filter (\<lambda>p. p \<noteq> this) (planets s))"
  using update_loop_quiet [of s this 0] assms
  by (simp add: heap_length_update planets_update visits_update)

lemma heap_length_animate_loop:
  "length (heap s) \<le> length (heap (world_of (animate_loop s i)))"
proof (induction s i rule: animate_loop.induct)
  case (1 s i)
  let ?s1 = "update s (planets s ! i)"
  have s1: "length (heap s) \<le> length (heap ?s1)"
    by (simp add: heap_length_update heap_length_update_loop)
  show ?case
  proof (cases "i < length (planets s)")
    case False
    then show ?thesis by (subst animate_loop.simps) simp
  next
    case i: True
    show ?thesis
    proof (cases "i < length (planets ?s1)")
      case False
      then show ?thesis
        using i s1 by (subst animate_loop.simps) simp
    next
      case True
      have "length (heap ?s1) \<le> length (heap (world_of (animate_loop ?s1 (Suc i))))"
        using i True by (rule "1.IH")
      then show ?thesis
        using i True s1 by (subst animate_loop.simps) simp
    qed
  qed
qed

lemma animate_loop_quiet:
  "length (heap (world_of (animate_loop s i))) = length (heap s) \<Longrightarrow>
     \<exists>s'. animate_loop s i = Inr s' \<and> planets s' = planets s
        \<and> visits s' = visits s @ all_pairs (drop i (planets s)) (planets s)"
proof (induction s i rule: animate_loop.induct)
  case (1 s i)
  let ?s1 = "update s (planets s ! i)"
  show ?case
  proof (cases "i < length (planets s)")
    case False
    then show ?thesis by (subst animate_loop.simps) (simp add: all_pairs_def)
  next
    case i: True
    have drop: "drop i (planets s) = planets s ! i # drop (Suc i) (planets s)"
      using i by (simp add: Cons_nth_drop_Suc)
    have s1: "length (heap s) \<le> length (heap ?s1)"
      by (simp add: heap_length_update heap_length_update_loop)
    have fin: "length (heap ?s1) \<le> length (heap (world_of (animate_loop s i)))"
    proof (cases "i < length (planets ?s1)")
      case True
      then show ?thesis
        using i heap_length_animate_loop [of ?s1 "Suc i"] by (subst animate_loop.simps) simp
    next
      case False
      then show ?thesis
        using i by (subst animate_loop.simps) simp
    qed
    have l1: "length (heap ?s1) = length (heap s)"
      using s1 fin "1.prems" by simp
    have p1: "planets ?s1 = planets s"
      and v1: "visits ?s1 = visits s
          @ map (Pair (planets s ! i)) (filter (\<lambda>p. p \<noteq> planets s ! i) (planets s))"
      using update_quiet [OF l1] by simp_all
    have i1: "i < length (planets ?s1)" using i p1 by simp
    have eq: "animate_loop s i = animate_loop ?s1 (Suc i)"
      using i i1 by (subst animate_loop.simps) simp
    have "length (heap (world_of (animate_loop ?s1 (Suc i)))) = length (heap ?s1)"
      using "1.prems" l1 unfolding eq by simp
    then have "\<exists>s'. animate_loop ?s1 (Suc i) = Inr s' \<and> planets s' = planets ?s1
        \<and> visits s' = visits ?s1 @ all_pairs (drop (Suc i) (planets ?s1)) (planets ?s1)"
      using i i1 "1.IH" by blast
    then show ?thesis
      unfolding eq drop p1 v1 by (simp add: all_pairs_def)
  qed
qed

lemma count_list_inner:
  "distinct ps \<Longrightarrow>
     count_list (map (Pair x) (filter (\<lambda>p. p \<noteq> x) ps)) (a, b)
       = (if x = a \<and> b \<in> set ps \<and> a \<noteq> b then 1 else 0)"
  by (induction ps) auto

lemma count_list_all_pairs:
  "distinct qs \<Longrightarrow> distinct ps \<Longrightarrow>
     count_list (all_pairs qs ps) (a, b)
       = (if a \<in> set qs \<and> b \<in> set ps \<and> a \<noteq> b then 1 else 0)"
  by (induction qs) (auto simp: all_pairs_def count_list_inner)

text \<open>
  Claim C1, for a tick without merges. If no planet is constructed during the tick (the
  heap has the same size after it, so no collision branch ran), then the tick completes,
  \<open>planets\<close> is unchanged and every ordered pair \<open>(a, b)\<close> of different live bodies is
  passed to \<open>applyGravity\<close> exactly once.
\<close>

theorem quiet_tick_pairs:
  assumes "\<not> isPaused s" and "distinct (planets s)" and "visits s = []"
    and "length (heap (world_of (animate s))) = length (heap s)"
  shows "\<exists>s'. animate s = Inr s' \<and> planets s' = planets s
           \<and> (\<forall>a b. count_list (visits s') (a, b)
                  = (if a \<in> set (planets s) \<and> b \<in> set (planets s) \<and> a \<noteq> b then 1 else 0))"
proof -
  have a: "animate s = animate_loop s 0"
    using assms(1) by (simp add: animate_def)
  obtain s' where s': "animate_loop s 0 = Inr s'" "planets s' = planets s"
    "visits s' = visits s @ all_pairs (drop 0 (planets s)) (planets s)"
    using animate_loop_quiet [of s 0] assms(4) unfolding a by blast
  have "visits s' = all_pairs (planets s) (planets s)"
    using s'(3) assms(3) by simp
  then have "count_list (visits s') (a, b)
      = (if a \<in> set (planets s) \<and> b \<in> set (planets s) \<and> a \<noteq> b then 1 else 0)" for a b
    using assms(2) by (simp add: count_list_all_pairs)
  then show ?thesis
    using s'(1,2) unfolding a by blast
qed

theorem quiet_tick_pairs_witness:
  "\<not> isPaused far_world \<and> distinct (planets far_world) \<and> visits far_world = []
   \<and> length (heap (world_of (animate far_world))) = length (heap far_world)
   \<and> planets (world_of (animate far_world)) = [0, 1]
   \<and> count_list (visits (world_of (animate far_world))) (0, 1) = 1
   \<and> count_list (visits (world_of (animate far_world))) (1, 0) = 1
   \<and> count_list (visits (world_of (animate far_world))) (0, 0) = 0"
proof -
  obtain s' where s': "animate far_world = Inr s'" "length (heap s') = 2"
    using far_world_tick by blast
  have h: "\<not> isPaused far_world" "distinct (planets far_world)" "visits far_world = []"
    by (simp_all add: far_world_def)
  have l: "length (heap (world_of (animate far_world))) = length (heap far_world)"
    using s' by (simp add: far_world_def)
  obtain t where t: "animate far_world = Inr t" "planets t = planets far_world"
    "\<forall>a b. count_list (visits t) (a, b)
        = (if a \<in> set (planets far_world) \<and> b \<in> set (planets far_world) \<and> a \<noteq> b then 1 else 0)"
    using quiet_tick_pairs [OF h l] by blast
  have "count_list (visits t) (0, 1) = 1" "count_list (visits t) (1, 0) = 1"
    "count_list (visits t) (0, 0) = 0" "planets t = [0, 1]"
    using t(2,3) by (simp_all add: far_world_def)
  then show ?thesis
    using h l t(1) by simp
qed

text \<open>
  Claim C1 as stated fails when a merge happens. In \<open>merge3\<close> the tick completes;
  \<open>A\<close> merges with \<open>B\<close> into the new body 3, and the only gravity calls of the tick are
  \<open>(A, B)\<close> and \<open>(C, 3)\<close>: \<open>B\<close> gets nothing from \<open>A\<close>, \<open>A\<close> and \<open>B\<close> get nothing
  from \<open>C\<close>, and the merged body 3, live at the end, gets nothing from \<open>C\<close>.
\<close>

theorem merge_tick_pairs_counterexample:
  "planets merge3 = [0, 1, 2] \<and> visits merge3 = [] \<and> \<not> isPaused merge3
   \<and> animate merge3 = Inr (world_of (animate merge3))
   \<and> planets (world_of (animate merge3)) = [3, 2]
   \<and> visits (world_of (animate merge3)) = [(0, 1), (2, 3)]"
proof -
  obtain s' where "animate merge3 = Inr s'" "planets s' = [3, 2]" "visits s' = [(0, 1), (2, 3)]"
    using merge3_tick by blast
  moreover have "planets merge3 = [0, 1, 2] \<and> visits merge3 = [] \<and> \<not> isPaused merge3"
    by (simp add: merge3_def)
  ultimately show ?thesis by simp
qed

section \<open>Spawning into an empty world\<close>

text \<open>
  Claim C9. With no planets, \<open>getMostMassivePlanet\<close> returns \<open>undefined\<close> (here \<open>None\<close>)
  and a spawn with valid numbers does not fail: it appends one planet, the only entry of
  \<open>planets\<close>, whose position is
  \<open>(canvas.width / 2 + distancePx * distanceScale, canvas.height / 2)\<close> and whose radius,
  mass, velocity, name and colour are the ones entered; the objects already in the heap
  are untouched.
\<close>

theorem spawnPlanet_empty:
  assumes "planets s = []"
  shows "getMostMassivePlanet s = None
       \<and> planets (spawnPlanet cw ch col (Some m) (Some r) (Some vx) (Some vy) (Some d) nm s)
           = [length (heap s)]
       \<and> length (heap (spawnPlanet cw ch col (Some m) (Some r) (Some vx) (Some vy) (Some d) nm s))
           = Suc (length (heap s))
       \<and> (\<forall>k < length (heap s).
             heap (spawnPlanet cw ch col (Some m) (Some r) (Some vx) (Some vy) (Some d) nm s) ! k
               = heap s ! k)
       \<and> pos_x (heap (spawnPlanet cw ch col (Some m) (Some r) (Some vx) (Some vy) (Some d) nm s)
             ! length (heap s)) = cw / 2 + d * distanceScale
       \<and> pos_y (heap (spawnPlanet cw ch col (Some m) (Some r) (Some vx) (Some vy) (Some d) nm s)
             ! length (heap s)) = ch / 2
       \<and> radius (heap (spawnPlanet cw ch col (Some m) (Some r) (Some vx) (Some vy) (Some d) nm s)
             ! length (heap s)) = r
       \<and> mass (heap (spawnPlanet cw ch col (Some m) (Some r) (Some vx) (Some vy) (Some d) nm s)
             ! length (heap s)) = m
       \<and> velocity (heap (spawnPlanet cw ch col (Some m) (Some r) (Some vx) (Some vy) (Some d) nm s)
             ! length (heap s)) = \<lparr>vel_x = vx, vel_y = vy\<rparr>
       \<and> name (heap (spawnPlanet cw ch col (Some m) (Some r) (Some vx) (Some vy) (Some d) nm s)
             ! length (heap s)) = nm
       \<and> color (heap (spawnPlanet cw ch col (Some m) (Some r) (Some vx) (Some vy) (Some d) nm s)
             ! length (heap s)) = col
       \<and> trail (heap (spawnPlanet cw ch col (Some m) (Some r) (Some vx) (Some vy) (Some d) nm s)
             ! length (heap s)) = []"
  using assms
  by (simp add: getMostMassivePlanet_def spawnPlanet_def Let_def new_Planet_def nth_append)

theorem spawnPlanet_empty_witness:
  "planets empty_world = []
   \<and> getMostMassivePlanet empty_world = None
   \<and> planets (spawnPlanet 800 600 ''rgb(1,2,3)'' (Some 5) (Some 2) (Some 7) (Some 9) (Some 100)
        ''P'' empty_world) = [0]
   \<and> pos_x (heap (spawnPlanet 800 600 ''rgb(1,2,3)'' (Some 5) (Some 2) (Some 7) (Some 9)
        (Some 100) ''P'' empty_world) ! 0) = 100000000400
   \<and> pos_y (heap (spawnPlanet 800 600 ''rgb(1,2,3)'' (Some 5) (Some 2) (Some 7) (Some 9)
        (Some 100) ''P'' empty_world) ! 0) = 300
   \<and> mass (heap (spawnPlanet 800 600 ''rgb(1,2,3)'' (Some 5) (Some 2) (Some 7) (Some 9)
        (Some 100) ''P'' empty_world) ! 0) = 5
   \<and> radius (heap (spawnPlanet 800 600 ''rgb(1,2,3)'' (Some 5) (Some 2) (Some 7) (Some 9)
        (Some 100) ''P'' empty_world) ! 0) = 2
   \<and> velocity (heap (spawnPlanet 800 600 ''rgb(1,2,3)'' (Some 5) (Some 2) (Some 7) (Some 9)
        (Some 100) ''P'' empty_world) ! 0) = \<lparr>vel_x = 7, vel_y = 9\<rparr>"
proof -
  have h: "planets empty_world = []" by (simp add: empty_world_def)
  have l: "length (heap empty_world) = 0" by (simp add: empty_world_def)
  show ?thesis
    using spawnPlanet_empty [OF h, of 800 600 "''rgb(1,2,3)''" 5 2 7 9 100 "''P''"] h
    unfolding l by (simp add: distanceScale_def)
qed

end
